theory Spec2Isabelle
  imports Complex_Main "HOL-Library.Word" "HOL-Library.Sublist"
begin

unbundle bit_operations_syntax

section \<open>JavaScript primitives used by the sources\<close>

text \<open>
  JavaScript strings are modelled as \<^typ>\<open>string\<close>: a list of code units, here restricted
  to the range 0..255. The sources look at code units only to compare them with the space,
  with \<open>#\<close>, with white space and line terminators, and to feed them to the rolling hash.
  Within that range the line terminators are LF and CR, and white space (what \<open>trim\<close> strips
  and \<open>\s\<close> matches) is TAB, LF, VT, FF, CR, SPACE and NBSP.
\<close>

definition is_line_terminator :: "char \<Rightarrow> bool" where
  "is_line_terminator c \<longleftrightarrow> c = CHR 0x0A \<or> c = CHR 0x0D"

definition is_whitespace :: "char \<Rightarrow> bool" where
  "is_whitespace c \<longleftrightarrow>
     c = CHR 0x09 \<or> c = CHR 0x0A \<or> c = CHR 0x0B \<or> c = CHR 0x0C \<or> c = CHR 0x0D \<or>
     c = CHR 0x20 \<or> c = CHR 0xA0"

text \<open>\<open>String.prototype.trim\<close>: white space is removed from both ends.\<close>

definition js_trim :: "string \<Rightarrow> string" where
  "js_trim s = rev (dropWhile is_whitespace (rev (dropWhile is_whitespace s)))"

text \<open>
  \<open>String.prototype.split\<close> with a one-character separator: the result is never empty,
  the empty string gives one empty piece.
\<close>

fun js_split :: "char \<Rightarrow> string \<Rightarrow> string list" where
  "js_split sep [] = [[]]"
| "js_split sep (c # cs) =
     (if c = sep then [] # js_split sep cs
      else (case js_split sep cs of [] \<Rightarrow> [[c]] | w # ws \<Rightarrow> (c # w) # ws))"

text \<open>\<open>Array.prototype.join\<close>.\<close>

fun js_join :: "string \<Rightarrow> string list \<Rightarrow> string" where
  "js_join sep [] = []"
| "js_join sep [w] = w"
| "js_join sep (w # ws) = w @ sep @ js_join sep ws"

text \<open>
  \<open>Array.prototype.slice(start, end)\<close>: a negative index counts from the end, and both
  indices are clamped to the array.
\<close>

definition js_slice :: "'a list \<Rightarrow> int \<Rightarrow> int \<Rightarrow> 'a list" where
  "js_slice xs start stop =
     (let len = int (length xs);
          k = (if start < 0 then max (len + start) 0 else min start len);
          final = (if stop < 0 then max (len + stop) 0 else min stop len)
      in take (nat (final - k)) (drop (nat k) xs))"

text \<open>The decimal text of a non-negative integer, as a template literal prints it.\<close>

fun nat_to_string :: "nat \<Rightarrow> string" where
  "nat_to_string n =
     (if n < 10 then [char_of (48 + n)]
      else nat_to_string (n div 10) @ [char_of (48 + n mod 10)])"

declare nat_to_string.simps [simp del]

section \<open>Text chunker (\<open>src/lib/embeddings.ts\<close>)\<close>

text \<open>
  The body of the \<open>for\<close> loop of \<open>chunkText\<close>. The parameters \<open>chunkSize\<close> and \<open>overlap\<close>
  are word counts (natural numbers); the loop counter is an integer, because the step
  \<open>chunkSize - overlap\<close> is negative when the overlap exceeds the chunk size. The loop
  need not end (with \<open>overlap \<ge> chunkSize\<close> the counter never advances), so the result is
  an option: \<open>None\<close> stands for a call that does not return.
\<close>

partial_function (option) chunkText_loop ::
  "string list \<Rightarrow> nat \<Rightarrow> nat \<Rightarrow> int \<Rightarrow> string list \<Rightarrow> string list option" where
  "chunkText_loop words chunkSize overlap i chunks =
     (if i < int (length words) then
        (if i + int chunkSize \<ge> int (length words)
         then Some (chunks @ [js_join '' '' (js_slice words i (i + int chunkSize))])
         else chunkText_loop words chunkSize overlap (i + (int chunkSize - int overlap))
                (chunks @ [js_join '' '' (js_slice words i (i + int chunkSize))]))
      else Some chunks)"

declare chunkText_loop.simps [code]

definition chunkText :: "string \<Rightarrow> nat \<Rightarrow> nat \<Rightarrow> string list option" where
  "chunkText text chunkSize overlap =
     (let words = js_split (CHR '' '') text in
      if length words \<le> chunkSize then Some [text]
      else chunkText_loop words chunkSize overlap 0 [])"

text \<open>
  The words of the \<open>j\<close>-th window of the specification: \<open>chunkSize\<close> words starting
  \<open>j * (chunkSize - overlap)\<close> words into the input, cut at the end of the input.
\<close>

definition chunk_window :: "string list \<Rightarrow> nat \<Rightarrow> nat \<Rightarrow> nat \<Rightarrow> string list" where
  "chunk_window words chunkSize overlap j =
     take chunkSize (drop (j * (chunkSize - overlap)) words)"

subsection \<open>Splitting a document into sections\<close>

text \<open>
  \<open>#{1,3}\s\<close> matches at the head of \<open>s\<close>: one to three \<open>#\<close> and then a white space
  character. With four or more \<open>#\<close> the character after the third is not white space and
  the match fails, also after backtracking.
\<close>

definition header_at :: "string \<Rightarrow> bool" where
  "header_at s =
     (let k = length (takeWhile (\<lambda>c. c = CHR ''#'') s) in
      1 \<le> k \<and> k \<le> 3 \<and> (case drop k s of [] \<Rightarrow> False | c # _ \<Rightarrow> is_whitespace c))"

text \<open>
  \<open>content.split(/(?=^#{1,3}\s)/m)\<close>: the text is cut before every position, other than
  the start of the current piece, that begins a line (the previous character is a line
  terminator) and where the look-ahead matches. \<open>cur\<close> is the piece read so far.
\<close>

fun split_sections :: "string \<Rightarrow> string \<Rightarrow> string list" where
  "split_sections cur [] = [cur]"
| "split_sections cur (c # cs) =
     (if cur \<noteq> [] \<and> is_line_terminator (last cur) \<and> header_at (c # cs)
      then cur # split_sections [c] cs
      else split_sections (cur @ [c]) cs)"

text \<open>
  \<open>(#{1,3})\s+(.+)\<close> matched at the head of \<open>s\<close>, giving the second group. The white
  space run is taken greedily; when it reaches the end of the input, \<open>\s+\<close> gives
  characters back until \<open>.+\<close> finds one that is no line terminator, which is then the
  last such character of the run after its first.
\<close>

definition title_at :: "string \<Rightarrow> string option" where
  "title_at s =
     (let k = length (takeWhile (\<lambda>c. c = CHR ''#'') s) in
      if 1 \<le> k \<and> k \<le> 3 then
        (let ws = takeWhile is_whitespace (drop k s);
             rest = dropWhile is_whitespace (drop k s)
         in if ws = [] then None
            else if rest \<noteq> [] then Some (takeWhile (\<lambda>c. \<not> is_line_terminator c) rest)
            else (case filter (\<lambda>c. \<not> is_line_terminator c) (tl ws) of
                    [] \<Rightarrow> None
                  | c # cs \<Rightarrow> Some [last (c # cs)]))
      else None)"

text \<open>
  \<open>section.match(/^(#{1,3})\s+(.+)/m)\<close>: the first position that begins a line and
  where the pattern matches.
\<close>

fun find_title :: "bool \<Rightarrow> string \<Rightarrow> string option" where
  "find_title line_start [] = None"
| "find_title line_start (c # cs) =
     (case (if line_start then title_at (c # cs) else None) of
        Some t \<Rightarrow> Some t
      | None \<Rightarrow> find_title (is_line_terminator c) cs)"

definition section_title :: "string \<Rightarrow> string option" where
  "section_title sec = map_option js_trim (find_title True sec)"

subsection \<open>Document chunks\<close>

text \<open>The field \<open>section\<close> of the source is \<open>section_name\<close> here.\<close>

record ChunkMetadata =
  filename :: string
  title :: string
  section_name :: "string option"
  chunkIndex :: nat
  totalChunks :: nat

record DocumentChunk =
  chunk_id :: string
  chunk_content :: string
  chunk_metadata :: ChunkMetadata

text \<open>The template literal \<open>`${filename}_${sectionIndex}_${chunkIndex}`\<close>.\<close>

definition make_chunk_id :: "string \<Rightarrow> nat \<Rightarrow> nat \<Rightarrow> string" where
  "make_chunk_id fname sectionIndex chunkIdx =
     fname @ ''_'' @ nat_to_string sectionIndex @ ''_'' @ nat_to_string chunkIdx"

text \<open>The body of the inner \<open>forEach\<close>: a chunk that is not blank is pushed.\<close>

definition push_chunk ::
  "string \<Rightarrow> string \<Rightarrow> string option \<Rightarrow> nat \<Rightarrow> DocumentChunk list \<Rightarrow> nat \<times> string
     \<Rightarrow> DocumentChunk list" where
  "push_chunk fname ttl sectionTitle sectionIndex chunks p =
     (case p of (chunkIdx, chunk) \<Rightarrow>
        if length (js_trim chunk) > 0 then
          chunks @
            [\<lparr>chunk_id = make_chunk_id fname sectionIndex chunkIdx,
              chunk_content = chunk,
              chunk_metadata =
                \<lparr>filename = fname, title = ttl, section_name = sectionTitle,
                 chunkIndex = length chunks, totalChunks = 0\<rparr>\<rparr>]
        else chunks)"

text \<open>The body of the outer \<open>forEach\<close>, for one section and its index.\<close>

definition process_section ::
  "string \<Rightarrow> string \<Rightarrow> DocumentChunk list \<Rightarrow> nat \<times> string \<Rightarrow> DocumentChunk list option" where
  "process_section fname ttl chunks p =
     (case p of (sectionIndex, sec) \<Rightarrow>
        (case chunkText (js_trim sec) 500 50 of
           None \<Rightarrow> None
         | Some textChunks \<Rightarrow>
             Some (foldl (push_chunk fname ttl (section_title sec) sectionIndex) chunks
                     (enumerate 0 textChunks))))"

fun process_sections ::
  "string \<Rightarrow> string \<Rightarrow> DocumentChunk list \<Rightarrow> (nat \<times> string) list
     \<Rightarrow> DocumentChunk list option" where
  "process_sections fname ttl chunks [] = Some chunks"
| "process_sections fname ttl chunks (p # ps) =
     (case process_section fname ttl chunks p of
        None \<Rightarrow> None
      | Some chunks' \<Rightarrow> process_sections fname ttl chunks' ps)"

definition createDocumentChunks ::
  "string \<Rightarrow> string \<Rightarrow> string \<Rightarrow> DocumentChunk list option" where
  "createDocumentChunks content fname ttl =
     (case process_sections fname ttl [] (enumerate 0 (split_sections [] content)) of
        None \<Rightarrow> None
      | Some chunks \<Rightarrow>
          Some (map (\<lambda>chunk. chunk\<lparr>chunk_metadata :=
                       (chunk_metadata chunk)\<lparr>totalChunks := length chunks\<rparr>\<rparr>) chunks))"

text \<open>
  The section and chunk ordinals of the chunks that are kept, read off the content alone.
\<close>

definition section_ordinals :: "nat \<times> string \<Rightarrow> (nat \<times> nat) list" where
  "section_ordinals p =
     (case p of (sectionIndex, sec) \<Rightarrow>
        map (\<lambda>q. (sectionIndex, fst q))
          (filter (\<lambda>q. length (js_trim (snd q)) > 0)
             (enumerate 0 (case chunkText (js_trim sec) 500 50 of
                             None \<Rightarrow> [] | Some textChunks \<Rightarrow> textChunks))))"

definition chunk_ordinals :: "string \<Rightarrow> (nat \<times> nat) list" where
  "chunk_ordinals content =
     concat (map section_ordinals (enumerate 0 (split_sections [] content)))"

section \<open>RAG formatter (\<open>src/lib/document-processor.ts\<close>)\<close>

text \<open>
  The metadata of a vector record and of a search result: the fields of the chunk and the
  chunk text.
\<close>

record SearchMetadata = ChunkMetadata +
  content :: string

record SearchResult =
  result_id :: string
  score :: real
  metadata :: SearchMetadata

definition PREAMBLE :: string where
  "PREAMBLE = ''Based on the following incident response documentation:\<newline>\<newline>''"

text \<open>
  The body of the \<open>forEach\<close> of \<open>formatDocumentForRAG\<close>, appending to
  \<open>formattedContext\<close>. The test \<open>if (metadata.section)\<close> is JavaScript truthiness: an
  absent section and the empty string both fail it.
\<close>

definition append_result :: "string \<Rightarrow> nat \<times> SearchResult \<Rightarrow> string" where
  "append_result formattedContext p =
     (case p of (index, result) \<Rightarrow>
        (let md = metadata result;
             c1 = formattedContext @ ''## Document '' @ nat_to_string (index + 1) @ '': '' @
                    title md @ ''\<newline>'';
             c2 = (case section_name md of
                     None \<Rightarrow> c1
                   | Some s \<Rightarrow> if s \<noteq> [] then c1 @ ''### '' @ s @ ''\<newline>'' else c1);
             c3 = c2 @ content md @ ''\<newline>\<newline>''
         in c3 @ ''*Source: '' @ filename md @ ''*\<newline>\<newline>''))"

definition formatDocumentForRAG :: "SearchResult list \<Rightarrow> string" where
  "formatDocumentForRAG searchResults =
     (if length searchResults = 0 then []
      else foldl append_result PREAMBLE (enumerate 0 searchResults))"

text \<open>The pieces of the output that the specification names.\<close>

definition title_heading :: "nat \<Rightarrow> SearchResult \<Rightarrow> string" where
  "title_heading index result =
     ''## Document '' @ nat_to_string (index + 1) @ '': '' @ title (metadata result) @
     ''\<newline>''"

definition section_heading :: "string \<Rightarrow> string" where
  "section_heading s = ''### '' @ s @ ''\<newline>''"

definition source_marker :: "SearchResult \<Rightarrow> string" where
  "source_marker result = ''*Source: '' @ filename (metadata result) @ ''*\<newline>\<newline>''"

definition result_block :: "nat \<times> SearchResult \<Rightarrow> string" where
  "result_block p =
     (case p of (index, result) \<Rightarrow>
        title_heading index result @
        (case section_name (metadata result) of
           None \<Rightarrow> []
         | Some s \<Rightarrow> if s \<noteq> [] then section_heading s else []) @
        content (metadata result) @ ''\<newline>\<newline>'' @
        source_marker result)"

section \<open>Chat handler, primary variant (\<open>src/app/api/chat/route.ts\<close>)\<close>

definition SYSTEM_PROMPT :: string where
  "SYSTEM_PROMPT =
     ''You are an on-call incident response assistant with access to a knowledge base of incident response procedures (KMAs - Knowledge Management Articles). Your role is to help engineers resolve system incidents by providing accurate, step-by-step guidance based on documented procedures.'' @
     ''\<newline>\<newline>'' @
     ''When responding to incident-related queries:\<newline>'' @
     ''1. Always search your knowledge base first for relevant incident response procedures\<newline>'' @
     ''2. Provide specific, actionable steps from the documented procedures\<newline>'' @
     ''3. Include relevant system information (severity levels, alert thresholds, etc.)\<newline>'' @
     ''4. Reference the source documents for verification\<newline>'' @
     ''5. If no relevant documentation is found, clearly state this and provide general guidance'' @
     ''\<newline>\<newline>'' @
     ''Be concise, accurate, and focus on getting incidents resolved quickly. Always prioritize safety and following established procedures.''"

definition RAG_INSTRUCTIONS :: string where
  "RAG_INSTRUCTIONS =
     ''Please provide a helpful response based on the above documentation. If the documentation is relevant, reference it in your answer. If not relevant, provide general assistance but mention that no specific incident procedures were found.''"

definition NO_CONTEXT_NOTE :: string where
  "NO_CONTEXT_NOTE =
     ''Note: No relevant incident response procedures were found in the knowledge base. Please provide general assistance.''"

definition SIMILARITY_THRESHOLD :: real where
  "SIMILARITY_THRESHOLD = 0.5"

definition createPromptWithContext :: "string \<Rightarrow> string \<Rightarrow> string" where
  "createPromptWithContext context message =
     js_join ''\<newline>''
       [SYSTEM_PROMPT, [], context, [], ''User Question:'' @ '' '' @ message, [],
        RAG_INSTRUCTIONS]"

definition createPromptWithoutContext :: "string \<Rightarrow> string" where
  "createPromptWithoutContext message =
     js_join ''\<newline>''
       [SYSTEM_PROMPT, [], ''User Question:'' @ '' '' @ message, [], NO_CONTEXT_NOTE]"

text \<open>A thrown value; the handler never looks inside it.\<close>

datatype js_error = JsError string

record Source =
  source_filename :: string
  source_title :: string
  source_section :: "string option"

definition to_source :: "SearchResult \<Rightarrow> Source" where
  "to_source result =
     \<lparr>source_filename = filename (metadata result),
      source_title = title (metadata result),
      source_section = section_name (metadata result)\<rparr>"

text \<open>
  The JSON body of a response: \<open>{error}\<close>, or \<open>{response, sources}\<close> where a
  \<open>sources\<close> that is \<open>undefined\<close> is left out of the JSON text (\<open>None\<close>).
\<close>

datatype response_body =
  ErrorBody string
| ChatBody string "Source list option"

record http_response =
  status :: nat
  body :: response_body

text \<open>The calls to the outside that the handler makes, in order.\<close>

datatype external_call =
  SearchSimilarCall string nat
| GenerateTextCall string

text \<open>
  The handler. The vector search and the language model are outside services: both are
  parameters, and each either throws (\<open>Inl\<close>) or returns (\<open>Inr\<close>). The request is the
  outcome of \<open>await request.json()\<close> and of reading \<open>message\<close> off it: a throw, or the
  \<open>message\<close> field (\<open>None\<close> when the body has none), a string as the interface
  declares it. \<open>!message\<close> holds for an absent field and for the empty string. The
  result is the response and the outside calls made.
\<close>

definition POST ::
  "(string \<Rightarrow> nat \<Rightarrow> js_error + SearchResult list) \<Rightarrow> (string \<Rightarrow> js_error + string)
     \<Rightarrow> js_error + string option \<Rightarrow> http_response \<times> external_call list" where
  "POST searchSimilar generateText request_json =
     (case request_json of
        Inl e \<Rightarrow> (\<lparr>status = 500, body = ErrorBody ''Failed to generate response''\<rparr>, [])
      | Inr None \<Rightarrow> (\<lparr>status = 400, body = ErrorBody ''Message is required''\<rparr>, [])
      | Inr (Some message) \<Rightarrow>
          if message = [] then
            (\<lparr>status = 400, body = ErrorBody ''Message is required''\<rparr>, [])
          else
            (let found =
                   (case searchSimilar message 2 of
                      Inl searchError \<Rightarrow> ([], [])
                    | Inr searchResults \<Rightarrow>
                        (let relevantResults =
                               filter (\<lambda>result. score result \<ge> SIMILARITY_THRESHOLD)
                                 searchResults
                         in if length relevantResults > 0
                            then (formatDocumentForRAG relevantResults,
                                  map to_source relevantResults)
                            else ([], [])));
                 context = fst found;
                 sources = snd found;
                 enhancedPrompt =
                   (if context \<noteq> [] then createPromptWithContext context message
                    else createPromptWithoutContext message);
                 calls = [SearchSimilarCall message 2, GenerateTextCall enhancedPrompt]
             in case generateText enhancedPrompt of
                  Inl e \<Rightarrow>
                    (\<lparr>status = 500, body = ErrorBody ''Failed to generate response''\<rparr>, calls)
                | Inr text \<Rightarrow>
                    (\<lparr>status = 200,
                      body = ChatBody text (if length sources > 0 then Some sources else None)\<rparr>,
                     calls)))"

text \<open>Whether a response body carries a \<open>sources\<close> field, and which.\<close>

fun sources_of :: "response_body \<Rightarrow> Source list option" where
  "sources_of (ErrorBody e) = None"
| "sources_of (ChatBody text srcs) = srcs"

text \<open>
  The value that \<open>await request.json()\<close> resolves to: the JSON value \<open>null\<close>, or any
  other JSON value together with its \<open>message\<close> field when it has one. Neither kind of
  body without the field carries a message.
\<close>

datatype json_body =
  JsonNull
| JsonValue "string option"

fun message_field :: "json_body \<Rightarrow> string option" where
  "message_field JsonNull = None"
| "message_field (JsonValue message) = message"

text \<open>
  \<open>const { message } = await request.json()\<close>: a rejected promise throws, and so does
  destructuring \<open>null\<close> (a \<open>TypeError\<close>); any other value yields its \<open>message\<close> field,
  \<open>undefined\<close> when there is none. The outcome is the request that \<open>POST\<close> takes.
\<close>

definition read_message :: "js_error + json_body \<Rightarrow> js_error + string option" where
  "read_message parsed =
     (case parsed of
        Inl e \<Rightarrow> Inl e
      | Inr JsonNull \<Rightarrow> Inl (JsError ''TypeError'')
      | Inr (JsonValue message) \<Rightarrow> Inr message)"

section \<open>Hash embedding (\<open>src/lib/embeddings.ts\<close>)\<close>

text \<open>
  \<open>simpleHash\<close>. \<open>hash << 5\<close> and \<open>hash & hash\<close> work on 32-bit two's complement
  integers; the subtraction and addition between them are exact in double precision
  (the values stay below \<open>2 ^ 37\<close>), so the whole step is arithmetic modulo \<open>2 ^ 32\<close>.
  \<open>Math.abs\<close> is then taken of the signed value, which is at most \<open>2 ^ 31\<close>.
\<close>

definition hash_step :: "32 word \<Rightarrow> char \<Rightarrow> 32 word" where
  "hash_step hash c =
     (let h = (push_bit 5 hash - hash) + of_char c in h AND h)"

definition simpleHash :: "string \<Rightarrow> int" where
  "simpleHash str = \<bar>sint (foldl hash_step 0 str)\<bar>"

text \<open>
  The loop of \<open>generateEmbedding\<close>. \<open>Math.sin\<close> is read as the sine of real numbers;
  the seed \<open>hash + i\<close> is an integer below \<open>2 ^ 32\<close> and exact in double precision.
  Nothing in the \<open>try\<close> block can throw, so there is no error branch.
\<close>

function generateEmbedding_loop :: "int \<Rightarrow> nat \<Rightarrow> real list \<Rightarrow> real list" where
  "generateEmbedding_loop hash i embedding =
     (if i < 384
      then generateEmbedding_loop hash (i + 1)
             (embedding @ [(sin (real_of_int (hash + int i)) + 1) / 2])
      else embedding)"
  by pat_completeness auto
termination
  by (relation "measure (\<lambda>(hash, i, embedding). 384 - i)") auto

declare generateEmbedding_loop.simps [simp del]

definition generateEmbedding :: "string \<Rightarrow> real list" where
  "generateEmbedding text = generateEmbedding_loop (simpleHash text) 0 []"

section \<open>Example data\<close>

text \<open>
  Search results used as concrete inputs below: one above the threshold with a section, one
  below the threshold without a section, and one whose section is the empty string.
\<close>

definition example_hit :: SearchResult where
  "example_hit =
     \<lparr>result_id = ''disk.md_1_0'', score = 0.9,
      metadata = \<lparr>filename = ''disk.md'', title = ''Disk full'', section_name = Some ''Steps'',
                  chunkIndex = 1, totalChunks = 2, content = ''Free space.''\<rparr>\<rparr>"

definition example_miss :: SearchResult where
  "example_miss =
     \<lparr>result_id = ''cpu.md_0_0'', score = 0.3,
      metadata = \<lparr>filename = ''cpu.md'', title = ''High CPU'', section_name = None,
                  chunkIndex = 0, totalChunks = 1, content = ''Check load.''\<rparr>\<rparr>"

definition example_blank_section :: SearchResult where
  "example_blank_section =
     \<lparr>result_id = ''net.md_0_0'', score = 0.8,
      metadata = \<lparr>filename = ''net.md'', title = ''Network'', section_name = Some [],
                  chunkIndex = 0, totalChunks = 1, content = ''Ping.''\<rparr>\<rparr>"

section \<open>Properties of the chunker\<close>

lemma js_split_not_Nil: "js_split sep s \<noteq> []"
  by (induction s) (auto split: list.splits)

lemma js_split_no_sep: "w \<in> set (js_split sep s) \<Longrightarrow> sep \<notin> set w"
proof (induction s arbitrary: w)
  case Nil
  then show ?case by simp
next
  case (Cons c cs)
  obtain v vs where vs: "js_split sep cs = v # vs"
    using js_split_not_Nil [of sep cs] by (cases "js_split sep cs") auto
  show ?case
  proof (cases "c = sep")
    case True
    with Cons show ?thesis by auto
  next
    case False
    with Cons.prems vs have "w = c # v \<or> w \<in> set vs" by auto
    then show ?thesis
    proof
      assume "w = c # v"
      moreover have "sep \<notin> set v" using Cons.IH [of v] vs by simp
      ultimately show ?thesis using False by auto
    next
      assume "w \<in> set vs"
      then show ?thesis using Cons.IH [of w] vs by simp
    qed
  qed
qed

lemma js_split_append_no_sep:
  "sep \<notin> set w \<Longrightarrow> js_split sep (w @ sep # r) = w # js_split sep r"
  by (induction w) (auto split: list.splits)

lemma js_split_no_sep_single: "sep \<notin> set w \<Longrightarrow> js_split sep w = [w]"
  by (induction w) (auto split: list.splits)

lemma js_split_join:
  "ws \<noteq> [] \<Longrightarrow> \<forall>w \<in> set ws. sep \<notin> set w \<Longrightarrow> js_split sep (js_join [sep] ws) = ws"
proof (induction ws)
  case Nil
  then show ?case by simp
next
  case (Cons w vs)
  show ?case
  proof (cases vs)
    case Nil
    with Cons.prems show ?thesis by (simp add: js_split_no_sep_single)
  next
    case (Cons v us)
    with Cons.IH Cons.prems show ?thesis by (simp add: js_split_append_no_sep)
  qed
qed

lemma js_join_split: "js_join [sep] (js_split sep s) = s"
proof (induction s)
  case Nil
  then show ?case by simp
next
  case (Cons c cs)
  obtain v vs where vs: "js_split sep cs = v # vs"
    using js_split_not_Nil [of sep cs] by (cases "js_split sep cs") auto
  with Cons show ?case by (cases vs) auto
qed

lemma js_slice_window:
  "js_slice xs (int i) (int i + int c) = take c (drop i xs)"
  by (auto simp: js_slice_def Let_def min_def nat_diff_distrib nat_add_distrib)

lemma chunkText_loop_windows:
  assumes ov: "overlap < chunkSize"
  shows "i < length words \<Longrightarrow>
    \<exists>k. chunkText_loop words chunkSize overlap (int i) acc =
           Some (acc @ map (\<lambda>j. js_join '' ''
                   (take chunkSize (drop (i + j * (chunkSize - overlap)) words))) [0..<Suc k])
       \<and> (\<forall>j<k. i + j * (chunkSize - overlap) + chunkSize < length words)
       \<and> length words \<le> i + k * (chunkSize - overlap) + chunkSize
       \<and> i + k * (chunkSize - overlap) < length words"
proof (induction "length words - i" arbitrary: i acc rule: less_induct)
  case less
  let ?s = "chunkSize - overlap"
  let ?g = "\<lambda>p. js_join '' '' (take chunkSize (drop p words))"
  show ?case
  proof (cases "length words \<le> i + chunkSize")
    case True
    have "chunkText_loop words chunkSize overlap (int i) acc = Some (acc @ [?g i])"
      using True less.prems
      by (subst chunkText_loop.simps) (simp add: js_slice_window)
    then show ?thesis using True less.prems by (intro exI [of _ 0]) simp
  next
    case False
    have s_pos: "0 < ?s" using ov by simp
    have next_lt: "i + ?s < length words" using False ov by simp
    have idx: "int i + (int chunkSize - int overlap) = int (i + ?s)"
      using ov by simp
    have unfold: "chunkText_loop words chunkSize overlap (int i) acc =
                  chunkText_loop words chunkSize overlap (int (i + ?s)) (acc @ [?g i])"
      using False less.prems
      by (subst chunkText_loop.simps) (simp only: idx js_slice_window, simp)
    have "length words - (i + ?s) < length words - i"
      using s_pos less.prems by simp
    from less.hyps [OF this next_lt, of "acc @ [?g i]"]
    obtain k where k:
      "chunkText_loop words chunkSize overlap (int (i + ?s)) (acc @ [?g i]) =
         Some ((acc @ [?g i]) @ map (\<lambda>j. ?g (i + ?s + j * ?s)) [0..<Suc k])"
      "\<forall>j<k. i + ?s + j * ?s + chunkSize < length words"
      "length words \<le> i + ?s + k * ?s + chunkSize"
      "i + ?s + k * ?s < length words"
      by blast
    have map_eq: "map (\<lambda>j. ?g (i + j * ?s)) [0..<Suc (Suc k)] =
                  ?g i # map (\<lambda>j. ?g (i + ?s + j * ?s)) [0..<Suc k]"
      by (subst map_upt_Suc) (simp add: add.assoc)
    have all: "\<forall>j<Suc k. i + j * ?s + chunkSize < length words"
    proof (intro allI impI)
      fix j assume "j < Suc k"
      show "i + j * ?s + chunkSize < length words"
      proof (cases j)
        case 0
        then show ?thesis using False by simp
      next
        case (Suc j')
        with \<open>j < Suc k\<close> have "j' < k" by simp
        with k(2) have "i + ?s + j' * ?s + chunkSize < length words" by blast
        then show ?thesis using Suc by (simp add: add.assoc)
      qed
    qed
    show ?thesis
      apply (intro exI [of _ "Suc k"] conjI)
      subgoal using unfold k(1) map_eq by simp
      subgoal using all by blast
      subgoal using k(3) by (simp add: add.assoc)
      subgoal using k(4) by (simp add: add.assoc)
      done
  qed
qed


lemma chunkText_windows:
  assumes ov: "overlap < chunkSize"
    and long: "chunkSize < length (js_split (CHR '' '') text)"
  shows "\<exists>k. chunkText text chunkSize overlap =
           Some (map (\<lambda>j. js_join '' '' (chunk_window (js_split (CHR '' '') text) chunkSize overlap j))
                   [0..<Suc k])
       \<and> (\<forall>j<k. j * (chunkSize - overlap) + chunkSize < length (js_split (CHR '' '') text))
       \<and> length (js_split (CHR '' '') text) \<le> k * (chunkSize - overlap) + chunkSize
       \<and> k * (chunkSize - overlap) < length (js_split (CHR '' '') text)"
proof -
  let ?words = "js_split (CHR '' '') text"
  have "0 < length ?words" using long by (simp add: js_split_not_Nil)
  from chunkText_loop_windows [OF ov this, of "[]"]
  show ?thesis using long by (simp add: chunkText_def chunk_window_def)
qed

lemma split_window:
  assumes "j * (chunkSize - overlap) < length (js_split (CHR '' '') text)" and "0 < chunkSize"
  shows "js_split (CHR '' '')
           (js_join '' '' (chunk_window (js_split (CHR '' '') text) chunkSize overlap j)) =
         chunk_window (js_split (CHR '' '') text) chunkSize overlap j"
proof (rule js_split_join)
  show "chunk_window (js_split (CHR '' '') text) chunkSize overlap j \<noteq> []"
    using assms by (simp add: chunk_window_def)
  show "\<forall>w\<in>set (chunk_window (js_split (CHR '' '') text) chunkSize overlap j). CHR '' '' \<notin> set w"
    unfolding chunk_window_def
    by (meson in_set_takeD in_set_dropD js_split_no_sep)
qed

lemma window_length:
  "j * (chunkSize - overlap) + chunkSize \<le> length words \<Longrightarrow>
   length (chunk_window words chunkSize overlap j) = chunkSize"
  by (simp add: chunk_window_def)

lemma window_overlap:
  assumes "overlap < chunkSize"
  shows "drop (chunkSize - overlap) (chunk_window words chunkSize overlap j) =
         take overlap (chunk_window words chunkSize overlap (Suc j))"
proof -
  have "chunkSize - (chunkSize - overlap) = overlap" using assms by simp
  moreover have "min overlap chunkSize = overlap" using assms by simp
  ultimately show ?thesis
    by (simp add: chunk_window_def drop_take add.commute)
qed

lemma window_last:
  assumes "length words \<le> k * (chunkSize - overlap) + chunkSize"
    and "k * (chunkSize - overlap) < length words"
  shows "k * (chunkSize - overlap) + length (chunk_window words chunkSize overlap k) = length words"
  using assms by (simp add: chunk_window_def min_def)

lemma chunkText_example:
  "chunkText ''one two three four five'' 3 1 = Some [''one two three'', ''three four five'']"
proof -
  have w: "js_split (CHR '' '') ''one two three four five'' =
           [''one'', ''two'', ''three'', ''four'', ''five'']"
    by simp
  have "chunkText_loop [''one'', ''two'', ''three'', ''four'', ''five''] 3 1 0 [] =
        chunkText_loop [''one'', ''two'', ''three'', ''four'', ''five''] 3 1 2 [''one two three'']"
    by (subst chunkText_loop.simps) (simp add: js_slice_def)
  also have "\<dots> = Some [''one two three'', ''three four five'']"
    by (subst chunkText_loop.simps) (simp add: js_slice_def)
  finally show ?thesis by (simp add: chunkText_def w)
qed

text \<open>
  Claim C1. The words of a text are the pieces between single spaces (a piece may be the
  empty string). When the text has more words than \<open>chunkSize\<close> and
  \<open>overlap < chunkSize\<close>, \<open>chunkText\<close> returns, and its chunks are the windows of the
  input: chunk \<open>j\<close> holds the words from position \<open>j * (chunkSize - overlap)\<close> on; every
  chunk but the last has exactly \<open>chunkSize\<close> words and ends before the end of the input;
  the last \<open>overlap\<close> words of a chunk are the first \<open>overlap\<close> words of the next; the
  last chunk starts inside the input and ends at its last word. So every window holds at
  least one word, and only the last chunk reaches the end of the input: nothing follows it.
  The example of the specification is the second part.
\<close>

theorem chunkText_long_text:
  "(overlap < chunkSize \<and> chunkSize < length (js_split (CHR '' '') text) \<longrightarrow>
     (\<exists>chunks. chunkText text chunkSize overlap = Some chunks \<and> chunks \<noteq> [] \<and>
        (\<forall>j<length chunks.
           j * (chunkSize - overlap) < length (js_split (CHR '' '') text) \<and>
           js_split (CHR '' '') (chunks ! j) =
             chunk_window (js_split (CHR '' '') text) chunkSize overlap j) \<and>
        (\<forall>j. Suc j < length chunks \<longrightarrow>
           length (js_split (CHR '' '') (chunks ! j)) = chunkSize \<and>
           j * (chunkSize - overlap) + chunkSize < length (js_split (CHR '' '') text) \<and>
           drop (chunkSize - overlap) (js_split (CHR '' '') (chunks ! j)) =
             take overlap (js_split (CHR '' '') (chunks ! Suc j)) \<and>
           length (take overlap (js_split (CHR '' '') (chunks ! Suc j))) = overlap) \<and>
        (length chunks - 1) * (chunkSize - overlap) +
           length (js_split (CHR '' '') (last chunks)) =
           length (js_split (CHR '' '') text))) \<and>
   chunkText ''one two three four five'' 3 1 = Some [''one two three'', ''three four five'']"
proof (intro conjI impI)
  show "chunkText ''one two three four five'' 3 1 = Some [''one two three'', ''three four five'']"
    by (rule chunkText_example)
next
  let ?words = "js_split (CHR '' '') text"
  let ?s = "chunkSize - overlap"
  let ?W = "chunk_window ?words chunkSize overlap"
  assume "overlap < chunkSize \<and> chunkSize < length ?words"
  then have ov: "overlap < chunkSize" and long: "chunkSize < length ?words" by simp_all
  from chunkText_windows [OF ov long] obtain k where
    res: "chunkText text chunkSize overlap = Some (map (\<lambda>j. js_join '' '' (?W j)) [0..<Suc k])"
    and before: "\<forall>j<k. j * ?s + chunkSize < length ?words"
    and reach: "length ?words \<le> k * ?s + chunkSize"
    and inside: "k * ?s < length ?words"
    by blast
  define chunks where "chunks = map (\<lambda>j. js_join '' '' (?W j)) [0..<Suc k]"
  have len: "length chunks = Suc k" by (simp add: chunks_def)
  have nth: "chunks ! j = js_join '' '' (?W j)" if "j \<le> k" for j
    using that unfolding chunks_def by (simp add: nth_map_upt del: upt_Suc)
  have start: "j * ?s < length ?words" if "j \<le> k" for j
  proof -
    have "j * ?s \<le> k * ?s" using that by (rule mult_le_mono1)
    then show ?thesis using inside by (rule le_less_trans)
  qed
  have cs_pos: "0 < chunkSize" using ov by simp
  have split: "js_split (CHR '' '') (chunks ! j) = ?W j" if "j \<le> k" for j
    using nth [OF that] split_window [OF start [OF that] cs_pos] by simp
  have lastc: "last chunks = chunks ! k"
    using len by (metis diff_Suc_1 last_conv_nth list.size(3) nat.distinct(1))
  have P1: "\<forall>j<length chunks. j * ?s < length ?words \<and> js_split (CHR '' '') (chunks ! j) = ?W j"
    using len start split by simp
  have P2: "\<forall>j. Suc j < length chunks \<longrightarrow>
           length (js_split (CHR '' '') (chunks ! j)) = chunkSize \<and>
           j * ?s + chunkSize < length ?words \<and>
           drop ?s (js_split (CHR '' '') (chunks ! j)) =
             take overlap (js_split (CHR '' '') (chunks ! Suc j)) \<and>
           length (take overlap (js_split (CHR '' '') (chunks ! Suc j))) = overlap"
  proof (intro allI impI)
    fix j assume "Suc j < length chunks"
    then have jk: "j < k" using len by simp
    then have fits: "j * ?s + chunkSize < length ?words" using before by blast
    have sj: "js_split (CHR '' '') (chunks ! j) = ?W j" using split jk by simp
    have ssj: "js_split (CHR '' '') (chunks ! Suc j) = ?W (Suc j)" using split jk by simp
    have l1: "length (?W j) = chunkSize" using window_length fits by simp
    have "overlap \<le> length (?W (Suc j))"
      using fits ov by (simp add: chunk_window_def)
    then have l2: "length (take overlap (?W (Suc j))) = overlap" by simp
    show "length (js_split (CHR '' '') (chunks ! j)) = chunkSize \<and>
           j * ?s + chunkSize < length ?words \<and>
           drop ?s (js_split (CHR '' '') (chunks ! j)) =
             take overlap (js_split (CHR '' '') (chunks ! Suc j)) \<and>
           length (take overlap (js_split (CHR '' '') (chunks ! Suc j))) = overlap"
      unfolding sj ssj using l1 l2 fits window_overlap [OF ov] by simp
  qed
  have P3: "(length chunks - 1) * ?s + length (js_split (CHR '' '') (last chunks)) = length ?words"
    using window_last [OF reach inside] split [of k] lastc len by simp
  show "\<exists>chunks. chunkText text chunkSize overlap = Some chunks \<and> chunks \<noteq> [] \<and>
        (\<forall>j<length chunks.
           j * ?s < length ?words \<and> js_split (CHR '' '') (chunks ! j) = ?W j) \<and>
        (\<forall>j. Suc j < length chunks \<longrightarrow>
           length (js_split (CHR '' '') (chunks ! j)) = chunkSize \<and>
           j * ?s + chunkSize < length ?words \<and>
           drop ?s (js_split (CHR '' '') (chunks ! j)) =
             take overlap (js_split (CHR '' '') (chunks ! Suc j)) \<and>
           length (take overlap (js_split (CHR '' '') (chunks ! Suc j))) = overlap) \<and>
        (length chunks - 1) * ?s + length (js_split (CHR '' '') (last chunks)) = length ?words"
    apply (rule exI [of _ chunks])
    apply (intro conjI)
    subgoal using res chunks_def by simp
    subgoal using len by auto
    subgoal using P1 by blast
    subgoal using P2 by blast
    subgoal using P3 by blast
    done
qed


theorem chunkText_long_text_witness:
  "(1::nat) < 3 \<and> 3 < length (js_split (CHR '' '') ''one two three four five'') \<and>
   (\<exists>chunks. chunkText ''one two three four five'' 3 1 = Some chunks \<and> chunks \<noteq> [] \<and>
      (length chunks - 1) * (3 - 1) + length (js_split (CHR '' '') (last chunks)) =
        length (js_split (CHR '' '') ''one two three four five''))"
proof -
  have h: "(1::nat) < 3 \<and> 3 < length (js_split (CHR '' '') ''one two three four five'')"
    by simp
  from chunkText_long_text [of 1 3 "''one two three four five''"]
  have "1 < (3::nat) \<and> 3 < length (js_split (CHR '' '') ''one two three four five'') \<longrightarrow>
        (\<exists>chunks. chunkText ''one two three four five'' 3 1 = Some chunks \<and> chunks \<noteq> [] \<and>
          (length chunks - 1) * (3 - 1) + length (js_split (CHR '' '') (last chunks)) =
            length (js_split (CHR '' '') ''one two three four five''))"
    by blast
  with h show ?thesis by blast
qed

text \<open>
  Claim C3, as stated: a text of at most \<open>chunkSize\<close> words comes back as one chunk equal
  to the trimmed text. \<open>chunkText\<close> does not trim: with a leading space the chunk keeps it.
\<close>

theorem chunkText_short_text_trimmed_counterexample:
  "length (js_split (CHR '' '') '' a'') \<le> 3 \<and> js_trim '' a'' = ''a'' \<and>
   chunkText '' a'' 3 1 = Some ['' a''] \<and> chunkText '' a'' 3 1 \<noteq> Some [js_trim '' a'']"
  by (simp add: chunkText_def js_trim_def is_whitespace_def)

text \<open>
  Claim C3, amended: a text of at most \<open>chunkSize\<close> words comes back as exactly one chunk,
  the text itself, unchanged; it is the trimmed text exactly when the text carries no white
  space at either end (as the sections that \<open>createDocumentChunks\<close> passes do).
\<close>

theorem chunkText_short_text:
  "length (js_split (CHR '' '') text) \<le> chunkSize \<Longrightarrow>
     chunkText text chunkSize overlap = Some [text] \<and>
     (chunkText text chunkSize overlap = Some [js_trim text] \<longleftrightarrow> js_trim text = text)"
  by (auto simp: chunkText_def)

theorem chunkText_short_text_witness:
  "length (js_split (CHR '' '') ''a b'') \<le> 3 \<and> chunkText ''a b'' 3 1 = Some [''a b''] \<and>
   chunkText ''a b'' 3 1 = Some [js_trim ''a b'']"
proof -
  have h: "length (js_split (CHR '' '') ''a b'') \<le> 3" by simp
  have t: "js_trim ''a b'' = ''a b''" by (simp add: js_trim_def is_whitespace_def)
  from chunkText_short_text [OF h, of 1] t h show ?thesis by simp
qed

section \<open>Properties of the document chunks\<close>

lemma chunkText_returns:
  assumes "overlap < chunkSize"
  shows "\<exists>chunks. chunkText text chunkSize overlap = Some chunks"
proof (cases "length (js_split (CHR '' '') text) \<le> chunkSize")
  case True
  then show ?thesis by (simp add: chunkText_def)
next
  case False
  then have "chunkSize < length (js_split (CHR '' '') text)" by simp
  from chunkText_windows [OF assms this] show ?thesis by blast
qed

lemma foldl_push_chunk_ids:
  "map chunk_id (foldl (push_chunk fname ttl st si) acc ps) =
   map chunk_id acc @
   map (\<lambda>q. make_chunk_id fname si (fst q)) (filter (\<lambda>q. length (js_trim (snd q)) > 0) ps)"
  by (induction ps arbitrary: acc) (auto simp: push_chunk_def)

lemma process_section_ids:
  "\<exists>res. process_section fname ttl acc p = Some res \<and>
         map chunk_id res =
           map chunk_id acc @ map (\<lambda>q. make_chunk_id fname (fst q) (snd q)) (section_ordinals p)"
proof -
  obtain si sec where p: "p = (si, sec)" by (cases p)
  obtain tcs where tcs: "chunkText (js_trim sec) 500 50 = Some tcs"
    using chunkText_returns [of 50 500 "js_trim sec"] by auto
  show ?thesis
    by (simp add: p tcs process_section_def section_ordinals_def foldl_push_chunk_ids o_def)
qed

lemma process_sections_ids:
  "\<exists>res. process_sections fname ttl acc ps = Some res \<and>
         map chunk_id res =
           map chunk_id acc @
           map (\<lambda>q. make_chunk_id fname (fst q) (snd q)) (concat (map section_ordinals ps))"
proof (induction ps arbitrary: acc)
  case Nil
  then show ?case by simp
next
  case (Cons p ps)
  from process_section_ids [of fname ttl acc p] obtain mid where
    mid: "process_section fname ttl acc p = Some mid"
      "map chunk_id mid =
         map chunk_id acc @ map (\<lambda>q. make_chunk_id fname (fst q) (snd q)) (section_ordinals p)"
    by blast
  from Cons.IH [of mid] obtain res where
    res: "process_sections fname ttl mid ps = Some res"
      "map chunk_id res =
         map chunk_id mid @
         map (\<lambda>q. make_chunk_id fname (fst q) (snd q)) (concat (map section_ordinals ps))"
    by blast
  show ?case using mid res by simp
qed

lemma createDocumentChunks_ids:
  "\<exists>chunks. createDocumentChunks doc fname ttl = Some chunks \<and>
     map chunk_id chunks =
       map (\<lambda>q. make_chunk_id fname (fst q) (snd q)) (chunk_ordinals doc)"
proof -
  from process_sections_ids [of fname ttl "[]" "enumerate 0 (split_sections [] doc)"]
  obtain res where
    res: "process_sections fname ttl [] (enumerate 0 (split_sections [] doc)) = Some res"
      "map chunk_id res =
         map (\<lambda>q. make_chunk_id fname (fst q) (snd q)) (chunk_ordinals doc)"
    by (auto simp: chunk_ordinals_def)
  show ?thesis using res by (simp add: createDocumentChunks_def o_def)
qed

lemma nat_to_string_not_Nil: "nat_to_string n \<noteq> []"
  by (subst nat_to_string.simps) simp

lemma char_of_digit_inj:
  "a < 10 \<Longrightarrow> b < 10 \<Longrightarrow> (char_of (48 + a) :: char) = char_of (48 + b) \<Longrightarrow> a = (b::nat)"
proof -
  assume a: "a < 10" and b: "b < 10" and eq: "(char_of (48 + a) :: char) = char_of (48 + b)"
  have "of_char (char_of (48 + a) :: char) = (of_char (char_of (48 + b) :: char) :: nat)"
    using eq by simp
  then have "(48 + a) mod 256 = (48 + b) mod 256" by (simp only: of_char_of)
  then show ?thesis using a b by simp
qed

lemma nat_to_string_inj: "nat_to_string m = nat_to_string n \<Longrightarrow> m = n"
proof (induction m arbitrary: n rule: nat_to_string.induct)
  case (1 m)
  show ?case
  proof (cases "m < 10")
    case m: True
    show ?thesis
    proof (cases "n < 10")
      case True
      with m "1.prems" show ?thesis
        by (simp add: nat_to_string.simps [of m] nat_to_string.simps [of n] char_of_digit_inj)
    next
      case False
      with m "1.prems" show ?thesis
        using nat_to_string_not_Nil [of "n div 10"]
        by (simp add: nat_to_string.simps [of m] nat_to_string.simps [of n])
    qed
  next
    case m: False
    show ?thesis
    proof (cases "n < 10")
      case True
      with m "1.prems" show ?thesis
        using nat_to_string_not_Nil [of "m div 10"]
        by (simp add: nat_to_string.simps [of m] nat_to_string.simps [of n])
    next
      case False
      with m "1.prems" have
        eq: "nat_to_string (m div 10) = nat_to_string (n div 10)"
        and d: "(char_of (48 + m mod 10) :: char) = char_of (48 + n mod 10)"
        by (simp_all add: nat_to_string.simps [of m] nat_to_string.simps [of n])
      from "1.IH" [OF m eq] have "m div 10 = n div 10" .
      moreover from d have "m mod 10 = n mod 10"
        by (intro char_of_digit_inj) simp_all
      ultimately show ?thesis by (metis div_mult_mod_eq)
    qed
  qed
qed

lemma nat_to_string_no_underscore: "CHR ''_'' \<notin> set (nat_to_string n)"
proof (induction n rule: nat_to_string.induct)
  case (1 n)
  have digit: "(char_of (48 + d) :: char) \<noteq> CHR ''_''" if "d < 10" for d :: nat
  proof
    assume "(char_of (48 + d) :: char) = CHR ''_''"
    then have "of_char (char_of (48 + d) :: char) = (of_char (CHR ''_'') :: nat)" by simp
    then have "(48 + d) mod 256 = 95" by (simp only: of_char_of) simp
    with that show False by simp
  qed
  show ?case
  proof (cases "n < 10")
    case True
    then show ?thesis using digit [of n] by (auto simp: nat_to_string.simps [of n])
  next
    case False
    with 1 show ?thesis using digit [of "n mod 10"] by (auto simp: nat_to_string.simps [of n])
  qed
qed

lemma append_sep_eq:
  "sep \<notin> set xs \<Longrightarrow> sep \<notin> set xs' \<Longrightarrow> xs @ sep # ys = xs' @ sep # ys' \<Longrightarrow>
   xs = xs' \<and> ys = ys'"
proof (induction xs arbitrary: xs')
  case Nil
  then show ?case by (cases xs') auto
next
  case (Cons x xs)
  then show ?case by (cases xs') auto
qed

lemma make_chunk_id_inj:
  "make_chunk_id fname a b = make_chunk_id fname a' b' \<Longrightarrow> a = a' \<and> b = b'"
proof -
  assume "make_chunk_id fname a b = make_chunk_id fname a' b'"
  then have "nat_to_string a @ CHR ''_'' # nat_to_string b =
             nat_to_string a' @ CHR ''_'' # nat_to_string b'"
    by (simp add: make_chunk_id_def)
  from append_sep_eq [OF nat_to_string_no_underscore nat_to_string_no_underscore this]
  show ?thesis by (auto dest: nat_to_string_inj)
qed

lemma section_ordinals_fst: "q \<in> set (section_ordinals p) \<Longrightarrow> fst q = fst p"
  by (cases p) (auto simp: section_ordinals_def)

lemma distinct_section_ordinals: "distinct (section_ordinals p)"
proof -
  obtain si sec where p: "p = (si, sec)" by (cases p)
  have "distinct (map fst (filter P (enumerate 0 xs)))" for P and xs :: "string list"
    by (rule distinct_map_filter) simp
  then have "distinct (map (\<lambda>q. (si, fst q)) (filter P (enumerate 0 xs)))"
    for P and xs :: "string list"
    by (simp add: distinct_map inj_on_def)
  then show ?thesis by (simp add: p section_ordinals_def)
qed

lemma distinct_concat_ordinals:
  "distinct (map fst ps) \<Longrightarrow> distinct (concat (map section_ordinals ps))"
proof (induction ps)
  case Nil
  then show ?case by simp
next
  case (Cons p ps)
  have "set (section_ordinals p) \<inter> set (concat (map section_ordinals ps)) = {}"
  proof (rule ccontr)
    assume "set (section_ordinals p) \<inter> set (concat (map section_ordinals ps)) \<noteq> {}"
    then obtain q p' where "q \<in> set (section_ordinals p)" "p' \<in> set ps"
      "q \<in> set (section_ordinals p')" by auto
    then have "fst p = fst p'" using section_ordinals_fst by metis
    with \<open>p' \<in> set ps\<close> Cons.prems show False by force
  qed
  with Cons show ?case by (simp add: distinct_section_ordinals)
qed

lemma distinct_chunk_ordinals: "distinct (chunk_ordinals doc)"
  unfolding chunk_ordinals_def by (rule distinct_concat_ordinals) simp

text \<open>
  Claim C4. \<open>createDocumentChunks\<close> returns, and every chunk of the returned list has
  \<open>totalChunks\<close> equal to the length of that list; in particular no returned chunk keeps
  the provisional value \<open>0\<close>.
\<close>

theorem createDocumentChunks_totalChunks:
  "\<exists>chunks. createDocumentChunks doc fname ttl = Some chunks \<and>
     (\<forall>chunk \<in> set chunks.
        totalChunks (chunk_metadata chunk) = length chunks \<and>
        totalChunks (chunk_metadata chunk) \<noteq> 0)"
proof -
  from process_sections_ids [of fname ttl "[]" "enumerate 0 (split_sections [] doc)"]
  obtain res where
    res: "process_sections fname ttl [] (enumerate 0 (split_sections [] doc)) = Some res"
    by blast
  show ?thesis using res by (auto simp: createDocumentChunks_def)
qed

theorem createDocumentChunks_totalChunks_witness:
  "\<exists>chunks. createDocumentChunks ''# A\<newline>x y\<newline>## B\<newline>z'' ''f.md'' ''T'' = Some chunks \<and>
     length chunks = 2 \<and>
     (\<forall>chunk \<in> set chunks. totalChunks (chunk_metadata chunk) = 2)"
proof -
  have len: "map_option length
               (createDocumentChunks ''# A\<newline>x y\<newline>## B\<newline>z'' ''f.md'' ''T'') = Some 2"
    by code_simp
  from createDocumentChunks_totalChunks [of "''# A\<newline>x y\<newline>## B\<newline>z''" "''f.md''" "''T''"]
  obtain chunks where
    c: "createDocumentChunks ''# A\<newline>x y\<newline>## B\<newline>z'' ''f.md'' ''T'' = Some chunks"
      "\<forall>chunk \<in> set chunks. totalChunks (chunk_metadata chunk) = length chunks"
    by blast
  from len c(1) have "length chunks = 2" by simp
  with c show ?thesis by simp
qed

text \<open>
  Claim C5. The model of \<open>createDocumentChunks\<close> is a function of its three arguments, as
  the source reads nothing else (no clock, no random source, no state kept between calls),
  so equal arguments give equal chunk lists. The call returns, and the sequence of ids is the
  template \<open>filename_sectionIndex_chunkIndex\<close> applied to the ordinals of the kept
  chunks, which depend on the content alone: another title gives the same ids.
\<close>

theorem createDocumentChunks_deterministic_ids:
  "(doc' = doc \<and> fname' = fname \<and> ttl' = ttl \<longrightarrow>
      createDocumentChunks doc' fname' ttl' = createDocumentChunks doc fname ttl) \<and>
   (\<exists>chunks. createDocumentChunks doc fname ttl = Some chunks \<and>
      map chunk_id chunks =
        map (\<lambda>q. make_chunk_id fname (fst q) (snd q)) (chunk_ordinals doc) \<and>
      (\<forall>other. \<exists>chunks'. createDocumentChunks doc fname other = Some chunks' \<and>
         map chunk_id chunks' = map chunk_id chunks))"
proof (intro conjI impI)
  assume "doc' = doc \<and> fname' = fname \<and> ttl' = ttl"
  then show "createDocumentChunks doc' fname' ttl' = createDocumentChunks doc fname ttl"
    by simp
next
  from createDocumentChunks_ids [of doc fname ttl] obtain chunks where
    c: "createDocumentChunks doc fname ttl = Some chunks"
      "map chunk_id chunks =
         map (\<lambda>q. make_chunk_id fname (fst q) (snd q)) (chunk_ordinals doc)"
    by blast
  have "\<exists>chunks'. createDocumentChunks doc fname other = Some chunks' \<and>
          map chunk_id chunks' = map chunk_id chunks" for other
    using createDocumentChunks_ids [of doc fname other] c(2) by auto
  with c show "\<exists>chunks. createDocumentChunks doc fname ttl = Some chunks \<and>
      map chunk_id chunks =
        map (\<lambda>q. make_chunk_id fname (fst q) (snd q)) (chunk_ordinals doc) \<and>
      (\<forall>other. \<exists>chunks'. createDocumentChunks doc fname other = Some chunks' \<and>
         map chunk_id chunks' = map chunk_id chunks)"
    by blast
qed

theorem createDocumentChunks_deterministic_ids_witness:
  "createDocumentChunks ''# A\<newline>x y\<newline>## B\<newline>z'' ''f.md'' ''T'' =
     createDocumentChunks ''# A\<newline>x y\<newline>## B\<newline>z'' ''f.md'' ''T'' \<and>
   (\<exists>chunks. createDocumentChunks ''# A\<newline>x y\<newline>## B\<newline>z'' ''f.md'' ''T'' = Some chunks \<and>
      map chunk_id chunks = [''f.md_0_0'', ''f.md_1_0''])"
proof -
  have ords: "map (\<lambda>q. make_chunk_id ''f.md'' (fst q) (snd q))
                (chunk_ordinals ''# A\<newline>x y\<newline>## B\<newline>z'') = [''f.md_0_0'', ''f.md_1_0'']"
    by code_simp
  from createDocumentChunks_deterministic_ids
    [of "''# A\<newline>x y\<newline>## B\<newline>z''" "''# A\<newline>x y\<newline>## B\<newline>z''" "''f.md''" "''f.md''" "''T''" "''T''"]
  have "\<exists>chunks. createDocumentChunks ''# A\<newline>x y\<newline>## B\<newline>z'' ''f.md'' ''T'' = Some chunks \<and>
      map chunk_id chunks =
        map (\<lambda>q. make_chunk_id ''f.md'' (fst q) (snd q))
          (chunk_ordinals ''# A\<newline>x y\<newline>## B\<newline>z'')"
    by blast
  with ords show ?thesis by simp
qed

text \<open>
  Claim C10. The ids of the chunks that \<open>createDocumentChunks\<close> returns are pairwise
  distinct: the ordinals of the kept chunks are distinct pairs, and the template is
  injective in them, because the decimal text of a number holds no underscore.
\<close>

theorem createDocumentChunks_distinct_ids:
  "\<exists>chunks. createDocumentChunks doc fname ttl = Some chunks \<and> distinct (map chunk_id chunks)"
proof -
  from createDocumentChunks_ids [of doc fname ttl] obtain chunks where
    c: "createDocumentChunks doc fname ttl = Some chunks"
      "map chunk_id chunks =
         map (\<lambda>q. make_chunk_id fname (fst q) (snd q)) (chunk_ordinals doc)"
    by blast
  have "inj_on (\<lambda>q. make_chunk_id fname (fst q) (snd q)) (set (chunk_ordinals doc))"
    by (rule inj_onI) (auto dest: make_chunk_id_inj simp: prod_eq_iff)
  then have "distinct (map chunk_id chunks)"
    unfolding c(2) using distinct_chunk_ordinals by (simp add: distinct_map)
  with c(1) show ?thesis by blast
qed

section \<open>Properties of the RAG formatter\<close>

lemma foldl_append_result:
  "foldl append_result acc ps = acc @ concat (map result_block ps)"
proof (induction ps arbitrary: acc)
  case Nil
  then show ?case by simp
next
  case (Cons p ps)
  have "append_result acc p = acc @ result_block p"
    by (cases p)
      (simp add: append_result_def result_block_def title_heading_def section_heading_def
         source_marker_def Let_def split: option.split)
  with Cons show ?case by simp
qed

lemma sublist_mid: "ys = ps @ xs @ ss \<Longrightarrow> sublist xs ys"
  by (auto simp: sublist_def)

lemma formatDocumentForRAG_not_Nil:
  "searchResults \<noteq> [] \<Longrightarrow> formatDocumentForRAG searchResults \<noteq> []"
  by (simp add: formatDocumentForRAG_def foldl_append_result PREAMBLE_def)

text \<open>
  Claim C6, as stated: the output holds the section heading of every result whose section
  field is present. A section that is present but is the empty string fails the truthiness
  test and gets no heading line.
\<close>

theorem formatDocumentForRAG_empty_section_counterexample:
  "section_name (metadata example_blank_section) = Some [] \<and>
   \<not> sublist (section_heading []) (formatDocumentForRAG [example_blank_section])"
  by (simp add: example_blank_section_def formatDocumentForRAG_def append_result_def
        PREAMBLE_def section_heading_def nat_to_string.simps sublist_code)

text \<open>
  Claim C6, amended: \<open>formatDocumentForRAG\<close> gives the empty string for the empty list; for
  a non-empty list it gives the preamble followed by one block per result, in input order,
  and the output holds, for each result, its title heading, its chunk text, its source marker
  with the filename, and its section heading when the section is present and not the empty
  string.
\<close>

theorem formatDocumentForRAG_blocks:
  "formatDocumentForRAG [] = [] \<and>
   (searchResults \<noteq> [] \<longrightarrow>
      formatDocumentForRAG searchResults =
        PREAMBLE @ concat (map result_block (enumerate 0 searchResults)) \<and>
      prefix PREAMBLE (formatDocumentForRAG searchResults) \<and>
      (\<forall>i < length searchResults.
         sublist (title_heading i (searchResults ! i)) (formatDocumentForRAG searchResults) \<and>
         sublist (content (metadata (searchResults ! i))) (formatDocumentForRAG searchResults) \<and>
         sublist (source_marker (searchResults ! i)) (formatDocumentForRAG searchResults) \<and>
         (\<forall>s. section_name (metadata (searchResults ! i)) = Some s \<and> s \<noteq> [] \<longrightarrow>
            sublist (section_heading s) (formatDocumentForRAG searchResults))))"
proof (intro conjI impI allI)
  show "formatDocumentForRAG [] = []" by (simp add: formatDocumentForRAG_def)
next
  assume ne: "searchResults \<noteq> []"
  then show eq: "formatDocumentForRAG searchResults =
        PREAMBLE @ concat (map result_block (enumerate 0 searchResults))"
    by (simp add: formatDocumentForRAG_def foldl_append_result)
  then show "prefix PREAMBLE (formatDocumentForRAG searchResults)" by simp
  fix i assume i: "i < length searchResults"
  let ?r = "searchResults ! i"
  have mem: "(i, ?r) \<in> set (enumerate 0 searchResults)"
    using i by (simp add: in_set_enumerate_eq)
  have blk: "sublist (result_block (i, ?r)) (formatDocumentForRAG searchResults)"
  proof -
    from mem obtain xs ys where "enumerate 0 searchResults = xs @ (i, ?r) # ys"
      by (meson split_list)
    then have "formatDocumentForRAG searchResults =
        (PREAMBLE @ concat (map result_block xs)) @ result_block (i, ?r) @
          concat (map result_block ys)"
      using eq by simp
    then show ?thesis unfolding sublist_def by blast
  qed
  have part: "sublist x (formatDocumentForRAG searchResults)"
    if "sublist x (result_block (i, ?r))" for x
    using that blk by (rule sublist_order.order_trans)
  let ?sec = "case section_name (metadata ?r) of None \<Rightarrow> []
               | Some s \<Rightarrow> if s \<noteq> [] then section_heading s else []"
  show "sublist (title_heading i ?r) (formatDocumentForRAG searchResults)"
    by (rule part, rule sublist_mid [where ps = "[]"]) (simp add: result_block_def)
  show "sublist (content (metadata ?r)) (formatDocumentForRAG searchResults)"
    by (rule part, rule sublist_mid [where ps = "title_heading i ?r @ ?sec"])
      (simp add: result_block_def)
  show "sublist (source_marker ?r) (formatDocumentForRAG searchResults)"
    by (rule part,
        rule sublist_mid [where ps = "title_heading i ?r @ ?sec @ content (metadata ?r) @
          ''\<newline>\<newline>''" and ss = "[]"])
      (simp add: result_block_def)
  fix s assume "section_name (metadata ?r) = Some s \<and> s \<noteq> []"
  then show "sublist (section_heading s) (formatDocumentForRAG searchResults)"
    by (intro part, intro sublist_mid [where ps = "title_heading i ?r"])
      (simp add: result_block_def)
qed


theorem formatDocumentForRAG_blocks_witness:
  "[example_hit, example_miss] \<noteq> [] \<and>
   section_name (metadata ([example_hit, example_miss] ! 0)) = Some ''Steps'' \<and>
   formatDocumentForRAG [example_hit, example_miss] =
     PREAMBLE @ concat (map result_block (enumerate 0 [example_hit, example_miss])) \<and>
   sublist (section_heading ''Steps'') (formatDocumentForRAG [example_hit, example_miss]) \<and>
   formatDocumentForRAG [example_hit, example_miss] =
     ''Based on the following incident response documentation:\<newline>\<newline>## Document 1: Disk full\<newline>### Steps\<newline>Free space.\<newline>\<newline>*Source: disk.md*\<newline>\<newline>## Document 2: High CPU\<newline>Check load.\<newline>\<newline>*Source: cpu.md*\<newline>\<newline>''"
proof -
  let ?rs = "[example_hit, example_miss]"
  have ne: "?rs \<noteq> []" by simp
  have sec: "section_name (metadata (?rs ! 0)) = Some ''Steps'' \<and> ''Steps'' \<noteq> []"
    by (simp add: example_hit_def)
  have zero: "0 < length ?rs" by simp
  from formatDocumentForRAG_blocks [of ?rs] ne
  have eq: "formatDocumentForRAG ?rs = PREAMBLE @ concat (map result_block (enumerate 0 ?rs))"
    and all: "\<forall>i < length ?rs.
         \<forall>s. section_name (metadata (?rs ! i)) = Some s \<and> s \<noteq> [] \<longrightarrow>
            sublist (section_heading s) (formatDocumentForRAG ?rs)"
    by blast+
  from all zero sec have sub: "sublist (section_heading ''Steps'') (formatDocumentForRAG ?rs)"
    by blast
  have val: "PREAMBLE @ concat (map result_block (enumerate 0 ?rs)) =
     ''Based on the following incident response documentation:\<newline>\<newline>## Document 1: Disk full\<newline>### Steps\<newline>Free space.\<newline>\<newline>*Source: disk.md*\<newline>\<newline>## Document 2: High CPU\<newline>Check load.\<newline>\<newline>*Source: cpu.md*\<newline>\<newline>''"
    by code_simp
  from ne sec eq sub val show ?thesis by simp
qed

section \<open>Properties of the chat handler\<close>

lemma POST_after_search:
  assumes "message \<noteq> []"
  shows "POST searchSimilar generateText (Inr (Some message)) =
     (let relevantResults =
            (case searchSimilar message 2 of
               Inl searchError \<Rightarrow> []
             | Inr searchResults \<Rightarrow>
                 filter (\<lambda>result. score result \<ge> SIMILARITY_THRESHOLD) searchResults);
          enhancedPrompt =
            (if relevantResults \<noteq> []
             then createPromptWithContext (formatDocumentForRAG relevantResults) message
             else createPromptWithoutContext message)
      in (case generateText enhancedPrompt of
            Inl e \<Rightarrow> \<lparr>status = 500, body = ErrorBody ''Failed to generate response''\<rparr>
          | Inr text \<Rightarrow>
              \<lparr>status = 200,
               body = ChatBody text
                 (if relevantResults \<noteq> [] then Some (map to_source relevantResults)
                  else None)\<rparr>,
          [SearchSimilarCall message 2, GenerateTextCall enhancedPrompt]))"
proof (cases "searchSimilar message 2")
  case (Inl e)
  with assms show ?thesis by (simp add: POST_def Let_def split: sum.split)
next
  case (Inr searchResults)
  show ?thesis
  proof (cases "filter (\<lambda>result. score result \<ge> SIMILARITY_THRESHOLD) searchResults = []")
    case True
    with Inr assms show ?thesis by (simp add: POST_def Let_def split: sum.split)
  next
    case False
    with Inr assms formatDocumentForRAG_not_Nil [OF False] show ?thesis
      by (simp add: POST_def Let_def split: sum.split)
  qed
qed

text \<open>
  Claim C7, as stated: every request whose JSON body lacks a \<open>message\<close> field is answered
  with 400. The body \<open>null\<close> lacks the field, but destructuring it throws, and the outer
  \<open>catch\<close> answers 500.
\<close>

theorem POST_null_body_counterexample:
  "message_field JsonNull = None \<and>
   POST (\<lambda>query topK. Inr []) (\<lambda>prompt. Inr ''ok'') (read_message (Inr JsonNull)) =
     (\<lparr>status = 500, body = ErrorBody ''Failed to generate response''\<rparr>, []) \<and>
   status (fst (POST (\<lambda>query topK. Inr []) (\<lambda>prompt. Inr ''ok'')
                  (read_message (Inr JsonNull)))) \<noteq> 400"
  by (simp add: read_message_def POST_def)

text \<open>
  Claim C7, amended: a request whose JSON body is not \<open>null\<close> and has no \<open>message\<close>, or
  has the empty string as \<open>message\<close>, is answered with status 400 and an error body, and no
  outside call is made: neither the search nor the language model. A request with a non-empty
  \<open>message\<close> is never answered with 400; it goes on to the search and to the language
  model. The body \<open>null\<close> is answered with the 500 error body, also without an outside call.
\<close>

theorem POST_message_required:
  "(parsed = Inr (JsonValue None) \<or> parsed = Inr (JsonValue (Some [])) \<longrightarrow>
      POST searchSimilar generateText (read_message parsed) =
        (\<lparr>status = 400, body = ErrorBody ''Message is required''\<rparr>, [])) \<and>
   (parsed = Inr (JsonValue (Some message)) \<and> message \<noteq> [] \<longrightarrow>
      status (fst (POST searchSimilar generateText (read_message parsed))) \<noteq> 400 \<and>
      (\<exists>prompt. snd (POST searchSimilar generateText (read_message parsed)) =
         [SearchSimilarCall message 2, GenerateTextCall prompt])) \<and>
   (parsed = Inr JsonNull \<longrightarrow>
      POST searchSimilar generateText (read_message parsed) =
        (\<lparr>status = 500, body = ErrorBody ''Failed to generate response''\<rparr>, []))"
proof (intro conjI impI)
  assume "parsed = Inr (JsonValue None) \<or> parsed = Inr (JsonValue (Some []))"
  then show "POST searchSimilar generateText (read_message parsed) =
        (\<lparr>status = 400, body = ErrorBody ''Message is required''\<rparr>, [])"
    by (auto simp: read_message_def POST_def)
next
  assume "parsed = Inr JsonNull"
  then show "POST searchSimilar generateText (read_message parsed) =
        (\<lparr>status = 500, body = ErrorBody ''Failed to generate response''\<rparr>, [])"
    by (simp add: read_message_def POST_def)
next
  assume a: "parsed = Inr (JsonValue (Some message)) \<and> message \<noteq> []"
  then have m: "message \<noteq> []" and r: "read_message parsed = Inr (Some message)"
    by (simp_all add: read_message_def)
  show "status (fst (POST searchSimilar generateText (read_message parsed))) \<noteq> 400"
    unfolding r POST_after_search [OF m] by (simp add: Let_def split: sum.split)
  show "\<exists>prompt. snd (POST searchSimilar generateText (read_message parsed)) =
         [SearchSimilarCall message 2, GenerateTextCall prompt]"
    unfolding r POST_after_search [OF m] by (simp add: Let_def)
qed

theorem POST_message_required_witness:
  "POST (\<lambda>query topK. Inr []) (\<lambda>prompt. Inr ''ok'') (read_message (Inr (JsonValue (Some [])))) =
     (\<lparr>status = 400, body = ErrorBody ''Message is required''\<rparr>, []) \<and>
   POST (\<lambda>query topK. Inr []) (\<lambda>prompt. Inr ''ok'') (read_message (Inr (JsonValue None))) =
     (\<lparr>status = 400, body = ErrorBody ''Message is required''\<rparr>, []) \<and>
   ''hi'' \<noteq> [] \<and>
   status (fst (POST (\<lambda>query topK. Inr []) (\<lambda>prompt. Inr ''ok'')
                  (read_message (Inr (JsonValue (Some ''hi'')))))) \<noteq> 400 \<and>
   snd (POST (\<lambda>query topK. Inr []) (\<lambda>prompt. Inr ''ok'')
          (read_message (Inr (JsonValue (Some ''hi''))))) =
     [SearchSimilarCall ''hi'' 2, GenerateTextCall (createPromptWithoutContext ''hi'')] \<and>
   POST (\<lambda>query topK. Inr []) (\<lambda>prompt. Inr ''ok'') (read_message (Inr JsonNull)) =
     (\<lparr>status = 500, body = ErrorBody ''Failed to generate response''\<rparr>, [])"
proof -
  let ?search = "\<lambda>query topK. Inr [] :: js_error + SearchResult list"
  let ?llm = "\<lambda>prompt. Inr ''ok'' :: js_error + string"
  have m: "''hi'' \<noteq> []" by simp
  have calls: "snd (POST ?search ?llm (read_message (Inr (JsonValue (Some ''hi''))))) =
     [SearchSimilarCall ''hi'' 2, GenerateTextCall (createPromptWithoutContext ''hi'')]"
    by (simp add: read_message_def POST_after_search Let_def)
  from POST_message_required [of "Inr (JsonValue (Some []))" ?search ?llm]
  have a: "POST ?search ?llm (read_message (Inr (JsonValue (Some [])))) =
     (\<lparr>status = 400, body = ErrorBody ''Message is required''\<rparr>, [])"
    by blast
  from POST_message_required [of "Inr (JsonValue None)" ?search ?llm]
  have b: "POST ?search ?llm (read_message (Inr (JsonValue None))) =
     (\<lparr>status = 400, body = ErrorBody ''Message is required''\<rparr>, [])"
    by blast
  from POST_message_required [of "Inr (JsonValue (Some ''hi''))" ?search ?llm "''hi''"] m
  have c: "status (fst (POST ?search ?llm (read_message (Inr (JsonValue (Some ''hi'')))))) \<noteq> 400"
    by blast
  from POST_message_required [of "Inr JsonNull" ?search ?llm]
  have d: "POST ?search ?llm (read_message (Inr JsonNull)) =
     (\<lparr>status = 500, body = ErrorBody ''Failed to generate response''\<rparr>, [])"
    by blast
  from a b m c calls d show ?thesis by blast
qed

text \<open>
  Claim C2, as stated: whenever the search succeeds, the response has a \<open>sources\<close> field
  exactly when some result reaches the threshold. When the language model call throws, the
  response is the 500 error body, which has no \<open>sources\<close> field, whatever the scores.
\<close>

theorem POST_sources_llm_failure_counterexample:
  "''hi'' \<noteq> [] \<and>
   (\<lambda>query topK. Inr [example_hit] :: js_error + SearchResult list) ''hi'' 2 = Inr [example_hit] \<and>
   (\<exists>result \<in> set [example_hit]. score result \<ge> 0.5) \<and>
   sources_of (body (fst (POST (\<lambda>query topK. Inr [example_hit])
      (\<lambda>prompt. Inl (JsError ''overloaded'')) (Inr (Some ''hi''))))) = None"
  by (simp add: POST_after_search Let_def example_hit_def)

text \<open>
  Claim C2, amended: when the message is not empty, the search returns and the language
  model answers the prompt that the handler sends, the response is 200 and carries a
  \<open>sources\<close> field exactly when some result has a score of at least 0.5; the field then
  holds the results with a score of at least 0.5, each projected to filename, title and
  section, in the order of the results, and no other result.
\<close>

theorem POST_sources_threshold:
  assumes "request_json = Inr (Some message)" and "message \<noteq> []"
    and "searchSimilar message 2 = Inr searchResults"
    and "GenerateTextCall prompt \<in> set (snd (POST searchSimilar generateText request_json))"
    and "generateText prompt = Inr text"
  shows "fst (POST searchSimilar generateText request_json) =
           \<lparr>status = 200,
            body = ChatBody text
              (if \<exists>result \<in> set searchResults. score result \<ge> 0.5
               then Some (map to_source (filter (\<lambda>result. score result \<ge> 0.5) searchResults))
               else None)\<rparr> \<and>
         (sources_of (body (fst (POST searchSimilar generateText request_json))) \<noteq> None \<longleftrightarrow>
           (\<exists>result \<in> set searchResults. score result \<ge> 0.5))"
proof -
  have ex: "(filter (\<lambda>result. score result \<ge> 0.5) searchResults \<noteq> []) \<longleftrightarrow>
            (\<exists>result \<in> set searchResults. score result \<ge> 0.5)"
    by (simp add: filter_empty_conv)
  have 1: "fst (POST searchSimilar generateText request_json) =
           \<lparr>status = 200,
            body = ChatBody text
              (if \<exists>result \<in> set searchResults. score result \<ge> 0.5
               then Some (map to_source (filter (\<lambda>result. score result \<ge> 0.5) searchResults))
               else None)\<rparr>"
    using assms(3,4,5) ex
    unfolding assms(1) POST_after_search [OF assms(2)]
    by (auto simp: Let_def SIMILARITY_THRESHOLD_def split: if_splits)
  have "sources_of (body (fst (POST searchSimilar generateText request_json))) \<noteq> None \<longleftrightarrow>
           (\<exists>result \<in> set searchResults. score result \<ge> 0.5)"
    unfolding 1 by simp
  with 1 show ?thesis by blast
qed

theorem POST_sources_threshold_witness:
  "''hi'' \<noteq> [] \<and>
   GenerateTextCall (createPromptWithContext (formatDocumentForRAG [example_hit]) ''hi'')
     \<in> set (snd (POST (\<lambda>query topK. Inr [example_hit, example_miss])
                     (\<lambda>prompt. Inr ''Free some space.'') (Inr (Some ''hi'')))) \<and>
   fst (POST (\<lambda>query topK. Inr [example_hit, example_miss])
          (\<lambda>prompt. Inr ''Free some space.'') (Inr (Some ''hi''))) =
     \<lparr>status = 200,
      body = ChatBody ''Free some space.''
        (Some [\<lparr>source_filename = ''disk.md'', source_title = ''Disk full'',
                source_section = Some ''Steps''\<rparr>])\<rparr>"
proof -
  let ?search = "\<lambda>query topK. Inr [example_hit, example_miss] :: js_error + SearchResult list"
  let ?llm = "\<lambda>prompt. Inr ''Free some space.'' :: js_error + string"
  let ?prompt = "createPromptWithContext (formatDocumentForRAG [example_hit]) ''hi''"
  have m: "''hi'' \<noteq> []" by simp
  have call: "GenerateTextCall ?prompt \<in> set (snd (POST ?search ?llm (Inr (Some ''hi''))))"
    by (simp add: POST_after_search Let_def SIMILARITY_THRESHOLD_def example_hit_def
          example_miss_def)
  from POST_sources_threshold [of "Inr (Some ''hi'')" "''hi''" ?search
      "[example_hit, example_miss]" ?prompt ?llm "''Free some space.''", OF refl m refl call refl]
  have "fst (POST ?search ?llm (Inr (Some ''hi''))) =
     \<lparr>status = 200,
      body = ChatBody ''Free some space.''
        (if \<exists>result \<in> set [example_hit, example_miss]. score result \<ge> 0.5
         then Some (map to_source
                (filter (\<lambda>result. score result \<ge> 0.5) [example_hit, example_miss]))
         else None)\<rparr>"
    by blast
  then have "fst (POST ?search ?llm (Inr (Some ''hi''))) =
     \<lparr>status = 200,
      body = ChatBody ''Free some space.''
        (Some [\<lparr>source_filename = ''disk.md'', source_title = ''Disk full'',
                source_section = Some ''Steps''\<rparr>])\<rparr>"
    by (simp add: example_hit_def example_miss_def to_source_def)
  with m call show ?thesis by blast
qed

text \<open>
  Claim C8, as stated: when the search throws, the handler answers 200. When the language
  model call throws as well, the answer is 500.
\<close>

theorem POST_search_failure_llm_failure_counterexample:
  "''hi'' \<noteq> [] \<and>
   (\<lambda>query topK. Inl (JsError ''index unreachable'') :: js_error + SearchResult list) ''hi'' 2 =
     Inl (JsError ''index unreachable'') \<and>
   fst (POST (\<lambda>query topK. Inl (JsError ''index unreachable''))
          (\<lambda>prompt. Inl (JsError ''overloaded'')) (Inr (Some ''hi''))) =
     \<lparr>status = 500, body = ErrorBody ''Failed to generate response''\<rparr> \<and>
   status (fst (POST (\<lambda>query topK. Inl (JsError ''index unreachable''))
          (\<lambda>prompt. Inl (JsError ''overloaded'')) (Inr (Some ''hi'')))) \<noteq> 200"
  by (simp add: POST_after_search Let_def)

text \<open>
  Claim C8, amended: when the message is not empty and the search throws, the handler does
  not pass the error on: it calls the language model with the prompt made of the system
  instructions, the user question and the note that no procedures were found; when that call
  returns, the response is 200 with the model's text and no \<open>sources\<close> field; when that call
  throws, the response is the 500 error body.
\<close>

theorem POST_search_failure_swallowed:
  "request_json = Inr (Some message) \<and> message \<noteq> [] \<and>
   searchSimilar message 2 = Inl searchError \<longrightarrow>
     snd (POST searchSimilar generateText request_json) =
       [SearchSimilarCall message 2, GenerateTextCall (createPromptWithoutContext message)] \<and>
     createPromptWithoutContext message =
       SYSTEM_PROMPT @ ''\<newline>\<newline>'' @ ''User Question: '' @ message @ ''\<newline>\<newline>'' @
       NO_CONTEXT_NOTE \<and>
     fst (POST searchSimilar generateText request_json) =
       (case generateText (createPromptWithoutContext message) of
          Inl e \<Rightarrow> \<lparr>status = 500, body = ErrorBody ''Failed to generate response''\<rparr>
        | Inr text \<Rightarrow> \<lparr>status = 200, body = ChatBody text None\<rparr>)"
proof (intro impI conjI)
  assume a: "request_json = Inr (Some message) \<and> message \<noteq> [] \<and>
             searchSimilar message 2 = Inl searchError"
  then have r: "request_json = Inr (Some message)" and m: "message \<noteq> []"
    and s: "searchSimilar message 2 = Inl searchError" by simp_all
  show "snd (POST searchSimilar generateText request_json) =
       [SearchSimilarCall message 2, GenerateTextCall (createPromptWithoutContext message)]"
    unfolding r POST_after_search [OF m] by (simp add: s Let_def)
  show "createPromptWithoutContext message =
       SYSTEM_PROMPT @ ''\<newline>\<newline>'' @ ''User Question: '' @ message @ ''\<newline>\<newline>'' @
       NO_CONTEXT_NOTE"
    by (simp add: createPromptWithoutContext_def)
  show "fst (POST searchSimilar generateText request_json) =
       (case generateText (createPromptWithoutContext message) of
          Inl e \<Rightarrow> \<lparr>status = 500, body = ErrorBody ''Failed to generate response''\<rparr>
        | Inr text \<Rightarrow> \<lparr>status = 200, body = ChatBody text None\<rparr>)"
    unfolding r POST_after_search [OF m] by (simp add: s Let_def split: sum.split)
qed

theorem POST_search_failure_swallowed_witness:
  "''hi'' \<noteq> [] \<and>
   snd (POST (\<lambda>query topK. Inl (JsError ''index unreachable''))
          (\<lambda>prompt. Inr ''Try a restart.'') (Inr (Some ''hi''))) =
     [SearchSimilarCall ''hi'' 2, GenerateTextCall (createPromptWithoutContext ''hi'')] \<and>
   fst (POST (\<lambda>query topK. Inl (JsError ''index unreachable''))
          (\<lambda>prompt. Inr ''Try a restart.'') (Inr (Some ''hi''))) =
     \<lparr>status = 200, body = ChatBody ''Try a restart.'' None\<rparr>"
  using POST_search_failure_swallowed [of "Inr (Some ''hi'')" "''hi''"
      "\<lambda>query topK. Inl (JsError ''index unreachable'')" "JsError ''index unreachable''"
      "\<lambda>prompt. Inr ''Try a restart.''"]
  by simp

section \<open>Properties of the hash embedding\<close>

lemma hash_step_31: "hash_step hash c = 31 * hash + of_char c"
  by (simp add: hash_step_def push_bit_eq_mult)

lemma simpleHash_range: "0 \<le> simpleHash str \<and> simpleHash str \<le> 2 ^ 31"
proof -
  have "- (2 ^ 31) \<le> sint (foldl hash_step 0 str)"
    using sint_ge [of "foldl hash_step 0 str"] by simp
  moreover have "sint (foldl hash_step 0 str) < 2 ^ 31"
    using sint_lt [of "foldl hash_step 0 str"] by simp
  ultimately show ?thesis by (simp add: simpleHash_def)
qed

lemma generateEmbedding_loop_map:
  "i \<le> 384 \<Longrightarrow>
   generateEmbedding_loop hash i embedding =
     embedding @ map (\<lambda>j. (sin (real_of_int (hash + int j)) + 1) / 2) [i..<384]"
proof (induction hash i embedding rule: generateEmbedding_loop.induct)
  case (1 hash i embedding)
  show ?case
  proof (cases "i < 384")
    case True
    then have "generateEmbedding_loop hash i embedding =
        generateEmbedding_loop hash (i + 1)
          (embedding @ [(sin (real_of_int (hash + int i)) + 1) / 2])"
      by (subst generateEmbedding_loop.simps) simp
    also have "\<dots> = (embedding @ [(sin (real_of_int (hash + int i)) + 1) / 2]) @
        map (\<lambda>j. (sin (real_of_int (hash + int j)) + 1) / 2) [i + 1..<384]"
      using True by (intro "1.IH") simp_all
    also have "\<dots> = embedding @
        map (\<lambda>j. (sin (real_of_int (hash + int j)) + 1) / 2) [i..<384]"
      using True by (simp add: upt_conv_Cons)
    finally show ?thesis .
  next
    case False
    with "1.prems" have "i = 384" by simp
    then show ?thesis by (subst generateEmbedding_loop.simps) simp
  qed
qed

text \<open>
  Claim C9. The hash variant of \<open>generateEmbedding\<close> returns exactly 384 entries; entry
  \<open>i\<close> is \<open>(sin (hash + i) + 1) / 2\<close> and lies between 0 and 1, where \<open>hash\<close> is the
  absolute value of the 32-bit rolling hash \<open>h \<mapsto> 31 * h + c\<close> of the text, a number between
  0 and \<open>2 ^ 31\<close>.
\<close>

theorem generateEmbedding_entries:
  "length (generateEmbedding text) = 384 \<and>
   (\<forall>i<384. generateEmbedding text ! i = (sin (real_of_int (simpleHash text + int i)) + 1) / 2 \<and>
            0 \<le> generateEmbedding text ! i \<and> generateEmbedding text ! i \<le> 1) \<and>
   simpleHash text = \<bar>sint (foldl (\<lambda>hash c. 31 * hash + of_char c) (0 :: 32 word) text)\<bar> \<and>
   0 \<le> simpleHash text \<and> simpleHash text \<le> 2 ^ 31"
proof -
  have eq: "generateEmbedding text =
      map (\<lambda>j. (sin (real_of_int (simpleHash text + int j)) + 1) / 2) [0..<384]"
    by (simp add: generateEmbedding_def generateEmbedding_loop_map)
  have nth: "generateEmbedding text ! i = (sin (real_of_int (simpleHash text + int i)) + 1) / 2"
    if "i < 384" for i
    unfolding eq using that by (simp add: nth_map_upt)
  have lo: "0 \<le> (sin x + 1) / 2" for x :: real
  proof -
    have "- 1 \<le> sin x" by (rule sin_ge_minus_one)
    then have "0 \<le> sin x + 1" by linarith
    then show ?thesis by simp
  qed
  have hi: "(sin x + 1) / 2 \<le> 1" for x :: real
  proof -
    have "sin x \<le> 1" by (rule sin_le_one)
    then have "sin x + 1 \<le> 2" by linarith
    then show ?thesis by simp
  qed
  have step: "hash_step = (\<lambda>hash c. 31 * hash + of_char c)"
    by (intro ext) (rule hash_step_31)
  show ?thesis
  proof (intro conjI allI impI)
    show "length (generateEmbedding text) = 384" by (simp add: eq)
    show "simpleHash text =
        \<bar>sint (foldl (\<lambda>hash c. 31 * hash + of_char c) (0 :: 32 word) text)\<bar>"
      by (simp add: simpleHash_def step)
    show "0 \<le> simpleHash text" using simpleHash_range by blast
    show "simpleHash text \<le> 2 ^ 31" using simpleHash_range by blast
  next
    fix i :: nat assume i: "i < 384"
    show "generateEmbedding text ! i = (sin (real_of_int (simpleHash text + int i)) + 1) / 2"
      using i by (rule nth)
    show "0 \<le> generateEmbedding text ! i" unfolding nth [OF i] by (rule lo)
    show "generateEmbedding text ! i \<le> 1" unfolding nth [OF i] by (rule hi)
  qed
qed

theorem generateEmbedding_entries_witness:
  "(0::nat) < 384 \<and> simpleHash ''a'' = 97 \<and>
   generateEmbedding ''a'' ! 0 = (sin 97 + 1) / 2 \<and>
   0 \<le> generateEmbedding ''a'' ! 0 \<and> generateEmbedding ''a'' ! 0 \<le> 1"
proof -
  have h: "simpleHash ''a'' = 97" by (simp add: simpleHash_def hash_step_def)
  have "(0::nat) < 384" by simp
  with generateEmbedding_entries [of "''a''"]
  have "generateEmbedding ''a'' ! 0 = (sin (real_of_int (simpleHash ''a'' + int 0)) + 1) / 2 \<and>
        0 \<le> generateEmbedding ''a'' ! 0 \<and> generateEmbedding ''a'' ! 0 \<le> 1"
    by blast
  with h show ?thesis by simp
qed

end
